theory Spec2Isabelle
  imports Main "HOL-Library.Word"
begin

section \<open>Errors\<close>

text \<open>
  The source throws \<open>std::runtime_error\<close> with three different messages:
  "Could not open file." (the macros \<open>SAFE_FILE_OPEN\<close> and
  \<open>SAFE_FILE_CREATE_IF_NOT_EXISTS\<close>), "Corrupt ExtendibleHashFile file structure."
  (the constructor) and "Could not find given hash sequence on ExtendibleHash."
  (\<open>ExtendibleHash::lookup\<close>). The fourth value marks an execution on which C++ leaves
  the behaviour undefined (an index outside a string or an array, a remainder by zero,
  a block read that is longer than the object it is read into).
\<close>

datatype error =
    Could_not_open_file
  | Corrupt_file_structure
  | Could_not_find_sequence
  | Undefined_behaviour

section \<open>The directory: \<open>ExtendibleHashEntry\<close> and \<open>ExtendibleHash\<close>\<close>

text \<open>
  \<open>struct ExtendibleHashEntry<D>\<close>: \<open>std::size_t local_depth\<close>,
  \<open>char sequence[D + 1]\<close>, \<open>long bucket_ref\<close>. The character array is a list whose
  length is \<open>D + 1\<close> for every entry the program builds.
\<close>

record ExtendibleHashEntry =
  local_depth :: nat
  sequence :: string
  bucket_ref :: int

type_synonym ExtendibleHash = "ExtendibleHashEntry list"

text \<open>
  \<open>std::bitset<D>(v).to_string()\<close>: \<open>D\<close> characters, the most significant bit first,
  so that the character at index \<open>D - 1 - j\<close> is bit \<open>j\<close>. The value is an
  \<open>unsigned long long\<close>; bits from 64 upwards are zero.
\<close>

definition bitset_to_string :: "nat \<Rightarrow> 64 word \<Rightarrow> string" where
  "bitset_to_string D v =
     map (\<lambda>i. if bit v (D - 1 - i) then CHR ''1'' else CHR ''0'') [0..<D]"

text \<open>
  The default constructor: one entry, the sequence \<open>0...0\<close> copied by \<open>strcpy\<close> with its
  terminating NUL, local depth 0, bucket 0.
\<close>

definition ExtendibleHash_default :: "nat \<Rightarrow> ExtendibleHash" where
  "ExtendibleHash_default D =
     [\<lparr>local_depth = 0, sequence = bitset_to_string D 0 @ [CHR 0x00], bucket_ref = 0\<rparr>]"

text \<open>\<open>ExtendibleHash::insert\<close> has an empty body.\<close>

definition ExtendibleHash_insert :: "string \<Rightarrow> ExtendibleHash \<Rightarrow> ExtendibleHash" where
  "ExtendibleHash_insert hash_sequence hash_entries = hash_entries"

text \<open>
  \<open>std::string::operator[]\<close> on a constant string: the character below \<open>size()\<close>, the
  NUL at \<open>size()\<close>, undefined beyond. An array of \<open>D + 1\<close> characters: undefined from
  its length on.
\<close>

definition string_at :: "string \<Rightarrow> nat \<Rightarrow> char option" where
  "string_at s pos =
     (if pos < length s then Some (s ! pos)
      else if pos = length s then Some (CHR 0x00)
      else None)"

definition array_at :: "string \<Rightarrow> nat \<Rightarrow> char option" where
  "array_at a i = (if i < length a then Some (a ! i) else None)"

text \<open>
  The inner loop of \<open>lookup\<close>, from the value \<open>j\<close> of its counter on; the result is the
  flag \<open>eq\<close>. The counter is an \<open>int\<close>: incrementing it past \<open>2^31 - 1\<close> is undefined.
  The index \<open>D - 1 - j\<close> is computed in \<open>std::size_t\<close>: for \<open>j \<ge> D\<close> it wraps to a
  value near \<open>2^64\<close>, outside both the string and the array.
\<close>

function lookup_eq :: "nat \<Rightarrow> string \<Rightarrow> string \<Rightarrow> nat \<Rightarrow> nat \<Rightarrow> bool option" where
  "lookup_eq D hash_sequence entry_sequence ld j =
     (if 2 ^ 31 \<le> j then None
      else if j < ld then
        (if D \<le> j then None
         else
           (case string_at hash_sequence (D - 1 - j) of
              None \<Rightarrow> None
            | Some a \<Rightarrow>
               (case array_at entry_sequence (D - 1 - j) of
                  None \<Rightarrow> None
                | Some b \<Rightarrow>
                   if a \<noteq> b then Some False
                   else lookup_eq D hash_sequence entry_sequence ld (j + 1))))
      else Some True)"
  by pat_completeness auto
termination
  by (relation "measure (\<lambda>(D, hs, es, ld, j). ld - j)") auto

declare lookup_eq.simps [simp del]

text \<open>
  \<open>ExtendibleHash::lookup\<close>: the entries in order, the first one whose flag stays true
  gives its \<open>bucket_ref\<close>; the throw after the loop.
\<close>

fun lookup :: "nat \<Rightarrow> ExtendibleHash \<Rightarrow> string \<Rightarrow> error + int" where
  "lookup D [] hash_sequence = Inl Could_not_find_sequence"
| "lookup D (entry # rest) hash_sequence =
     (case lookup_eq D hash_sequence (sequence entry) (local_depth entry) 0 of
        None \<Rightarrow> Inl Undefined_behaviour
      | Some True \<Rightarrow> Inr (bucket_ref entry)
      | Some False \<Rightarrow> lookup D rest hash_sequence)"

text \<open>
  The data model of the specification: a local depth between 0 and \<open>D\<close>, and the
  sequence buffer of \<open>D + 1\<close> characters.
\<close>

definition entry_ok :: "nat \<Rightarrow> ExtendibleHashEntry \<Rightarrow> bool" where
  "entry_ok D e = (local_depth e \<le> D \<and> length (sequence e) = D + 1)"

text \<open>
  The matching rule in the words of the specification: the prefix of an entry, its
  \<open>local_depth\<close> low-order characters read from the least significant position outward,
  equals the low-order \<open>local_depth\<close> bits of the string.
\<close>

definition low_order :: "nat \<Rightarrow> string \<Rightarrow> string" where
  "low_order n s = take n (rev s)"

definition entry_matches :: "nat \<Rightarrow> string \<Rightarrow> ExtendibleHashEntry \<Rightarrow> bool" where
  "entry_matches D bits e =
     (low_order (local_depth e) (take D (sequence e)) = low_order (local_depth e) bits)"

text \<open>
  The constructor from the index file. \<open>sizeof(ExtendibleHashEntry<D>)\<close> on an LP64
  target: eight bytes of \<open>local_depth\<close>, the \<open>D + 1\<close> characters of \<open>sequence\<close> padded
  to a multiple of eight, eight bytes of \<open>bucket_ref\<close>. Integers are little-endian;
  \<open>long\<close> is read in two's complement.
\<close>

definition sizeof_ExtendibleHashEntry :: "nat \<Rightarrow> nat" where
  "sizeof_ExtendibleHashEntry D = 8 + ((D + 1 + 7) div 8) * 8 + 8"

definition as_size_t :: "string \<Rightarrow> nat" where
  "as_size_t bytes = foldr (\<lambda>c n. of_char c + 256 * n) (take 8 bytes) 0"

definition as_long :: "string \<Rightarrow> int" where
  "as_long bytes = sint (word_of_nat (as_size_t bytes) :: 64 word)"

definition unpack_entry :: "nat \<Rightarrow> string \<Rightarrow> ExtendibleHashEntry" where
  "unpack_entry D bytes =
     \<lparr>local_depth = as_size_t (take 8 bytes),
      sequence = take (D + 1) (drop 8 bytes),
      bucket_ref = as_long (drop (sizeof_ExtendibleHashEntry D - 8) bytes)\<rparr>"

text \<open>
  The loop \<open>while (!buf.eof())\<close> over the string stream that holds the whole file: a
  read of a full entry leaves \<open>eof\<close> clear and the entry is pushed; the first read that
  finds fewer bytes than an entry sets \<open>eof\<close>, pushes nothing and ends the loop.
\<close>

function unpack_entries :: "nat \<Rightarrow> string \<Rightarrow> ExtendibleHash" where
  "unpack_entries D buf =
     (if length buf < sizeof_ExtendibleHashEntry D then []
      else unpack_entry D (take (sizeof_ExtendibleHashEntry D) buf)
           # unpack_entries D (drop (sizeof_ExtendibleHashEntry D) buf))"
  by pat_completeness auto
termination
  by (relation "measure (\<lambda>(D, buf). length buf)")
     (auto simp: sizeof_ExtendibleHashEntry_def)

declare unpack_entries.simps [simp del]

definition ExtendibleHash_from_file :: "nat \<Rightarrow> string \<Rightarrow> ExtendibleHash" where
  "ExtendibleHash_from_file D index_file_content = unpack_entries D index_file_content"

text \<open>
  Modelled from the spec: \<open>split\<close> of section 4.2, which the source does not have
  (\<open>ExtendibleHash::insert\<close> is empty and nothing else changes \<open>hash_entries\<close>). The entry
  at position \<open>i\<close> is replaced by two entries one level deeper: the prefix of the old
  entry with bit 0, and with bit 1, written at the new, more significant position
  \<open>local_depth\<close> of the prefix, which is index \<open>D - 1 - local_depth\<close> of the sequence
  buffer; each with the bucket reference given for it. At \<open>local_depth = D\<close> the
  address space is exhausted and there is no split.
\<close>

definition split :: "nat \<Rightarrow> nat \<Rightarrow> int \<Rightarrow> int \<Rightarrow> ExtendibleHash \<Rightarrow> ExtendibleHash option" where
  "split D i ref_a ref_b hash_entries =
     (if i < length hash_entries \<and> local_depth (hash_entries ! i) < D then
        (let old_entry = hash_entries ! i;
             pos = D - 1 - local_depth old_entry;
             entry_a = \<lparr>local_depth = local_depth old_entry + 1,
                        sequence = (sequence old_entry)[pos := CHR ''0''],
                        bucket_ref = ref_a\<rparr>;
             entry_b = \<lparr>local_depth = local_depth old_entry + 1,
                        sequence = (sequence old_entry)[pos := CHR ''1''],
                        bucket_ref = ref_b\<rparr>
         in Some (take i hash_entries @ [entry_a, entry_b] @ drop (Suc i) hash_entries))
      else None)"

text \<open>
  The directories reachable from the initial one: by the entry-creation operation the
  source has (\<open>ExtendibleHash::insert\<close>) and by the split of the specification.
\<close>

inductive reachable :: "nat \<Rightarrow> ExtendibleHash \<Rightarrow> bool" for D :: nat where
  initial: "reachable D (ExtendibleHash_default D)"
| created: "reachable D es \<Longrightarrow> reachable D (ExtendibleHash_insert hs es)"
| splitted: "reachable D es \<Longrightarrow> split D i ref_a ref_b es = Some es' \<Longrightarrow> reachable D es'"

definition bit_string :: "nat \<Rightarrow> string \<Rightarrow> bool" where
  "bit_string D b = (length b = D \<and> list_all (\<lambda>c. c = CHR ''0'' \<or> c = CHR ''1'') b)"

section \<open>Files, streams and the outside world\<close>

text \<open>
  A path names no file, a file that cannot be opened (a directory, a file without
  permission), or a file with its bytes. The world is the file system and what has been
  written to \<open>std::cout\<close>.
\<close>

datatype disk_file = Absent | Denied | Data string

record world =
  files :: "string \<Rightarrow> disk_file"
  cout :: "int list"

text \<open>
  A \<open>std::fstream\<close> member: closed, or open with the flag "no \<open>failbit\<close>".
\<close>

datatype fstream = Closed | Opened bool

text \<open>
  \<open>SAFE_FILE_CREATE_IF_NOT_EXISTS\<close>: \<open>open(name, std::ios::app)\<close> creates a missing file
  and leaves an existing one as it is; the stream is closed again.
\<close>

definition SAFE_FILE_CREATE_IF_NOT_EXISTS :: "string \<Rightarrow> world \<Rightarrow> error + world" where
  "SAFE_FILE_CREATE_IF_NOT_EXISTS file_name w =
     (case files w file_name of
        Absent \<Rightarrow> Inr (w\<lparr>files := (files w)(file_name := Data [])\<rparr>)
      | Denied \<Rightarrow> Inl Could_not_open_file
      | Data bytes \<Rightarrow> Inr w)"

text \<open>
  \<open>SAFE_FILE_OPEN\<close> with \<open>in | out | binary\<close>: the file must exist. \<open>open\<close> on a stream
  that is already open fails and sets \<open>failbit\<close>, but \<open>is_open()\<close> stays true, so the
  macro does not throw.
\<close>

definition SAFE_FILE_OPEN :: "fstream \<Rightarrow> string \<Rightarrow> world \<Rightarrow> error + fstream" where
  "SAFE_FILE_OPEN stream file_name w =
     (case stream of
        Opened good \<Rightarrow> Inr (Opened False)
      | Closed \<Rightarrow>
         (case files w file_name of
            Data bytes \<Rightarrow> Inr (Opened True)
          | Absent \<Rightarrow> Inl Could_not_open_file
          | Denied \<Rightarrow> Inl Could_not_open_file))"

text \<open>
  \<open>SAFE_FILE_OPEN\<close> with \<open>in | out | binary | trunc\<close>: a missing file is created, an
  existing one is emptied.
\<close>

definition SAFE_FILE_OPEN_trunc :: "fstream \<Rightarrow> string \<Rightarrow> world \<Rightarrow> error + fstream \<times> world" where
  "SAFE_FILE_OPEN_trunc stream file_name w =
     (case stream of
        Opened good \<Rightarrow> Inr (Opened False, w)
      | Closed \<Rightarrow>
         (case files w file_name of
            Denied \<Rightarrow> Inl Could_not_open_file
          | Absent \<Rightarrow> Inr (Opened True, w\<lparr>files := (files w)(file_name := Data [])\<rparr>)
          | Data bytes \<Rightarrow> Inr (Opened True, w\<lparr>files := (files w)(file_name := Data [])\<rparr>)))"

text \<open>\<open>peek() == traits_type::eof()\<close> on a stream just opened on the file.\<close>

definition peek_eof :: "disk_file \<Rightarrow> bool" where
  "peek_eof f = (case f of Data bytes \<Rightarrow> bytes = [] | Absent \<Rightarrow> True | Denied \<Rightarrow> True)"

text \<open>
  What the specification says of a file: it has content, or it is empty. A file that does
  not exist has no content; the constructor creates it and then finds it empty.
\<close>

definition has_content :: "disk_file \<Rightarrow> bool" where
  "has_content f = (case f of Data bytes \<Rightarrow> bytes \<noteq> [] | Absent \<Rightarrow> False | Denied \<Rightarrow> False)"

definition empty_or_missing :: "disk_file \<Rightarrow> bool" where
  "empty_or_missing f = (f = Data [] \<or> f = Absent)"

definition BLOCK_SIZE :: nat where
  "BLOCK_SIZE = 1024"

text \<open>
  \<open>SEEK_ALL(file, pos)\<close> followed by \<open>file.read(buffer, BLOCK_SIZE)\<close>: the bytes that
  reach the buffer. A stream with \<open>failbit\<close> neither seeks nor reads; a negative position
  fails the seek; a position beyond the end finds nothing to read.
\<close>

definition read_block :: "fstream \<Rightarrow> disk_file \<Rightarrow> int \<Rightarrow> string" where
  "read_block stream f pos =
     (case stream of
        Opened True \<Rightarrow>
         (case f of
            Data bytes \<Rightarrow> if 0 \<le> pos then take BLOCK_SIZE (drop (nat pos) bytes) else []
          | Absent \<Rightarrow> []
          | Denied \<Rightarrow> [])
      | Opened False \<Rightarrow> []
      | Closed \<Rightarrow> [])"

section \<open>Records and buckets\<close>

text \<open>
  What the template parameter \<open>RecordType\<close> fixes: \<open>sizeof(RecordType)\<close>,
  \<open>sizeof(Bucket<RecordType>)\<close> and the value that a run of \<open>sizeof(RecordType)\<close> bytes
  is when it is copied into a record.
\<close>

record 'r RecordType =
  sizeof_RecordType :: nat
  sizeof_Bucket :: nat
  from_bytes :: "string \<Rightarrow> 'r"

definition MAX_RECORDS_PER_BUCKET :: "'r RecordType \<Rightarrow> nat" where
  "MAX_RECORDS_PER_BUCKET rt = (BLOCK_SIZE - 2 * 8) div sizeof_RecordType rt"

text \<open>
  \<open>struct Bucket\<close>, with \<open>size\<close> and \<open>next\<close> as \<open>long\<close>. Its bytes before a read are
  those of \<open>Bucket<RecordType> bucket{}\<close>: zero everywhere but in \<open>next = -1\<close>, the last
  eight bytes. A read of a block overwrites the object from its first byte on.
\<close>

record 'r Bucket =
  bucket_size :: int
  bucket_records :: "'r list"
  bucket_next :: int

definition Bucket_init_bytes :: "'r RecordType \<Rightarrow> string" where
  "Bucket_init_bytes rt = replicate (sizeof_Bucket rt - 8) (CHR 0x00) @ replicate 8 (CHR 0xFF)"

function bytes_to_records :: "'r RecordType \<Rightarrow> string \<Rightarrow> 'r list" where
  "bytes_to_records rt bytes =
     (if sizeof_RecordType rt = 0 \<or> length bytes < sizeof_RecordType rt then []
      else from_bytes rt (take (sizeof_RecordType rt) bytes)
           # bytes_to_records rt (drop (sizeof_RecordType rt) bytes))"
  by pat_completeness auto
termination
  by (relation "measure (\<lambda>(rt, bytes). length bytes)") auto

declare bytes_to_records.simps [simp del]

definition Bucket_of_bytes :: "'r RecordType \<Rightarrow> string \<Rightarrow> 'r Bucket" where
  "Bucket_of_bytes rt bytes =
     \<lparr>bucket_size = as_long bytes,
      bucket_records =
        bytes_to_records rt (take (MAX_RECORDS_PER_BUCKET rt * sizeof_RecordType rt) (drop 8 bytes)),
      bucket_next = as_long (drop (sizeof_Bucket rt - 8) bytes)\<rparr>"

definition read_into_Bucket :: "'r RecordType \<Rightarrow> string \<Rightarrow> 'r Bucket" where
  "read_into_Bucket rt block =
     Bucket_of_bytes rt (block @ drop (length block) (Bucket_init_bytes rt))"

section \<open>\<open>ExtendibleHashFile\<close>\<close>

text \<open>
  The members of the class. \<open>global_depth\<close> is a template parameter and is passed to
  every operation as \<open>D\<close>; it is a \<open>std::size_t\<close>, below \<open>2^64\<close>. \<open>std::hash<KeyType>\<close>
  is left to the implementation: it is a field, with values in \<open>std::size_t\<close>.
\<close>

record ('k, 'r) ExtendibleHashFile =
  raw_file :: fstream
  raw_file_name :: string
  index_file :: fstream
  index_file_name :: string
  hash_file :: fstream
  hash_file_name :: string
  primary_key :: bool
  index :: "'r \<Rightarrow> 'k"
  greater_than :: "'k \<Rightarrow> 'k \<Rightarrow> bool"
  hash_function :: "'k \<Rightarrow> 64 word"
  hash_index :: ExtendibleHash

text \<open>
  \<open>std::bitset<global_depth>(hash_function(key) % global_depth).to_string()\<close>. The
  remainder by \<open>global_depth = 0\<close> is undefined.
\<close>

definition hash_sequence_of :: "nat \<Rightarrow> 64 word \<Rightarrow> string option" where
  "hash_sequence_of D h =
     (if D = 0 then None else Some (bitset_to_string D (h mod word_of_nat D)))"

text \<open>
  \<open>ExtendibleHashFile::insert\<close>. An exception leaves \<open>hash_file\<close> open. The record is
  written nowhere: after \<open>lookup\<close> the bucket reference goes to \<open>std::cout\<close> and the
  file is closed.
\<close>

definition ExtendibleHashFile_insert ::
  "nat \<Rightarrow> 'r \<Rightarrow> ('k, 'r) ExtendibleHashFile \<Rightarrow> world
     \<Rightarrow> (error + unit) \<times> ('k, 'r) ExtendibleHashFile \<times> world" where
  "ExtendibleHashFile_insert D record this w =
     (case SAFE_FILE_OPEN (hash_file this) (hash_file_name this) w of
        Inl e \<Rightarrow> (Inl e, this, w)
      | Inr stream \<Rightarrow>
         (let this1 = this\<lparr>hash_file := stream\<rparr> in
          case hash_sequence_of D (hash_function this1 (index this1 record)) of
            None \<Rightarrow> (Inl Undefined_behaviour, this1, w)
          | Some hash_sequence \<Rightarrow>
             (case lookup D (hash_index this1) hash_sequence of
                Inl e \<Rightarrow> (Inl e, this1, w)
              | Inr ref \<Rightarrow>
                 (Inr (), this1\<lparr>hash_file := Closed\<rparr>, w\<lparr>cout := cout w @ [ref]\<rparr>))))"

text \<open>
  \<open>ExtendibleHashFile::search\<close>. The block is read from \<open>raw_file\<close> at \<open>bucket_ref\<close>
  (\<open>ref\<close> below) into the local \<open>bucket\<close>; a block longer than
  \<open>sizeof(Bucket<RecordType>)\<close> overruns it. An exception leaves \<open>raw_file\<close> open.
  \<open>result\<close> is returned as it was declared.
\<close>

definition ExtendibleHashFile_search ::
  "nat \<Rightarrow> 'r RecordType \<Rightarrow> 'k \<Rightarrow> ('k, 'r) ExtendibleHashFile \<Rightarrow> world
     \<Rightarrow> (error + 'r list) \<times> ('k, 'r) ExtendibleHashFile \<times> world" where
  "ExtendibleHashFile_search D rt key this w =
     (let result = [] in
      case SAFE_FILE_OPEN (raw_file this) (raw_file_name this) w of
        Inl e \<Rightarrow> (Inl e, this, w)
      | Inr stream \<Rightarrow>
         (let this1 = this\<lparr>raw_file := stream\<rparr> in
          case hash_sequence_of D (hash_function this1 key) of
            None \<Rightarrow> (Inl Undefined_behaviour, this1, w)
          | Some hash_sequence \<Rightarrow>
             (case lookup D (hash_index this1) hash_sequence of
                Inl e \<Rightarrow> (Inl e, this1, w)
              | Inr ref \<Rightarrow>
                 (let block = read_block stream (files w (raw_file_name this1)) ref in
                  if sizeof_Bucket rt < length block then (Inl Undefined_behaviour, this1, w)
                  else
                    (let bucket = read_into_Bucket rt block in
                     (Inr result, this1\<lparr>raw_file := Closed\<rparr>, w))))))"

text \<open>
  The loop of the constructor over the raw data file: every complete record is read and
  passed to \<open>insert\<close>; an exception from \<open>insert\<close> leaves the constructor.
\<close>

function insert_all ::
  "nat \<Rightarrow> 'r RecordType \<Rightarrow> string \<Rightarrow> ('k, 'r) ExtendibleHashFile \<Rightarrow> world
     \<Rightarrow> (error + unit) \<times> ('k, 'r) ExtendibleHashFile \<times> world" where
  "insert_all D rt bytes this w =
     (if sizeof_RecordType rt = 0 \<or> length bytes < sizeof_RecordType rt then (Inr (), this, w)
      else
        (case ExtendibleHashFile_insert D (from_bytes rt (take (sizeof_RecordType rt) bytes)) this w of
           (Inl e, this', w') \<Rightarrow> (Inl e, this', w')
         | (Inr u, this', w') \<Rightarrow> insert_all D rt (drop (sizeof_RecordType rt) bytes) this' w'))"
  by pat_completeness auto
termination
  by (relation "measure (\<lambda>(D, rt, bytes, this, w). length bytes)") auto

declare insert_all.simps [simp del]

text \<open>
  The constructor. Both files are created when missing, then opened. Three branches
  follow in the order of the source: both files empty, the index is built from the raw
  data file; otherwise, if one of them is not empty, the exception; otherwise the
  directory is read from the index file.
\<close>

definition ExtendibleHashFile_new ::
  "nat \<Rightarrow> 'r RecordType \<Rightarrow> string \<Rightarrow> bool \<Rightarrow> ('r \<Rightarrow> 'k) \<Rightarrow> ('k \<Rightarrow> 'k \<Rightarrow> bool) \<Rightarrow> ('k \<Rightarrow> 64 word)
     \<Rightarrow> world \<Rightarrow> (error + ('k, 'r) ExtendibleHashFile) \<times> world" where
  "ExtendibleHashFile_new D rt fileName primaryKey idx gt hf w =
     (let this = \<lparr>raw_file = Closed, raw_file_name = fileName,
                  index_file = Closed, index_file_name = fileName @ ''_index.ehashind'',
                  hash_file = Closed, hash_file_name = fileName @ ''.ehash'',
                  primary_key = primaryKey, index = idx, greater_than = gt,
                  hash_function = hf, hash_index = []\<rparr> in
      case SAFE_FILE_CREATE_IF_NOT_EXISTS (hash_file_name this) w of
        Inl e \<Rightarrow> (Inl e, w)
      | Inr w1 \<Rightarrow>
      (case SAFE_FILE_CREATE_IF_NOT_EXISTS (index_file_name this) w1 of
        Inl e \<Rightarrow> (Inl e, w1)
      | Inr w2 \<Rightarrow>
      (case SAFE_FILE_OPEN (index_file this) (index_file_name this) w2 of
        Inl e \<Rightarrow> (Inl e, w2)
      | Inr index_stream \<Rightarrow>
      (case SAFE_FILE_OPEN (hash_file this) (hash_file_name this) w2 of
        Inl e \<Rightarrow> (Inl e, w2)
      | Inr hash_stream \<Rightarrow>
         (let this1 = this\<lparr>index_file := index_stream, hash_file := hash_stream\<rparr>;
              index_eof = peek_eof (files w2 (index_file_name this1));
              hash_eof = peek_eof (files w2 (hash_file_name this1))
          in
          if index_eof \<and> hash_eof then
            (let this2 = this1\<lparr>hash_file := Closed\<rparr> in
             case SAFE_FILE_OPEN (raw_file this2) (raw_file_name this2) w2 of
               Inl e \<Rightarrow> (Inl e, w2)
             | Inr raw_stream \<Rightarrow>
                (let this3 = this2\<lparr>raw_file := raw_stream,
                                    hash_index := ExtendibleHash_default D\<rparr> in
                 if \<not> peek_eof (files w2 (raw_file_name this3)) then
                   (case files w2 (raw_file_name this3) of
                      Data bytes \<Rightarrow>
                       (case insert_all D rt bytes this3 w2 of
                          (Inl e, this4, w3) \<Rightarrow> (Inl e, w3)
                        | (Inr u, this4, w3) \<Rightarrow>
                           (Inr (this4\<lparr>raw_file := Closed, index_file := Closed\<rparr>), w3))
                    | Absent \<Rightarrow> (Inr (this3\<lparr>raw_file := Closed, index_file := Closed\<rparr>), w2)
                    | Denied \<Rightarrow> (Inr (this3\<lparr>raw_file := Closed, index_file := Closed\<rparr>), w2))
                 else (Inr (this3\<lparr>raw_file := Closed, index_file := Closed\<rparr>), w2)))
          else if \<not> index_eof \<or> \<not> hash_eof then
            (Inl Corrupt_file_structure, w2)
          else
            (case files w2 (index_file_name this1) of
               Data bytes \<Rightarrow>
                (Inr (this1\<lparr>hash_file := Closed,
                           hash_index := ExtendibleHash_from_file D bytes,
                           index_file := Closed\<rparr>), w2)
             | Absent \<Rightarrow> (Inr (this1\<lparr>hash_file := Closed, index_file := Closed\<rparr>), w2)
             | Denied \<Rightarrow> (Inr (this1\<lparr>hash_file := Closed, index_file := Closed\<rparr>), w2)))))))"

text \<open>
  The destructor: the index file is opened with \<open>trunc\<close>; \<open>index_file.write()\<close> is
  called without a buffer and without a length, so no byte of \<open>hash_index\<close> reaches the
  file; \<open>hash_index\<close> is deleted and the streams are closed with the object.
\<close>

definition ExtendibleHashFile_delete ::
  "('k, 'r) ExtendibleHashFile \<Rightarrow> world \<Rightarrow> (error + unit) \<times> world" where
  "ExtendibleHashFile_delete this w =
     (case SAFE_FILE_OPEN_trunc (index_file this) (index_file_name this) w of
        Inl e \<Rightarrow> (Inl e, w)
      | Inr (stream, w1) \<Rightarrow> (Inr (), w1))"

text \<open>
  A sequence of calls on an open index. The caller catches an exception of a call and
  goes on with the object as the call left it; after undefined behaviour nothing is
  known and the run has no result.
\<close>

datatype ('k, 'r) call = Search 'k | Insert 'r

fun run ::
  "nat \<Rightarrow> 'r RecordType \<Rightarrow> ('k, 'r) call list \<Rightarrow> ('k, 'r) ExtendibleHashFile \<Rightarrow> world
     \<Rightarrow> (('k, 'r) ExtendibleHashFile \<times> world) option" where
  "run D rt [] this w = Some (this, w)"
| "run D rt (Search key # calls) this w =
     (case ExtendibleHashFile_search D rt key this w of
        (Inl Undefined_behaviour, this', w') \<Rightarrow> None
      | (r, this', w') \<Rightarrow> run D rt calls this' w')"
| "run D rt (Insert record # calls) this w =
     (case ExtendibleHashFile_insert D record this w of
        (Inl Undefined_behaviour, this', w') \<Rightarrow> None
      | (r, this', w') \<Rightarrow> run D rt calls this' w')"

text \<open>
  The totality invariant of the specification, on the entries of the data model: every
  string of \<open>D\<close> bits is matched by exactly one entry.
\<close>

definition partitions :: "nat \<Rightarrow> ExtendibleHash \<Rightarrow> bool" where
  "partitions D es =
     ((\<forall>e\<in>set es. entry_ok D e)
      \<and> (\<forall>b. bit_string D b \<longrightarrow> length (filter (entry_matches D b) es) = 1))"

section \<open>An instance of the template\<close>

text \<open>
  \<open>ExtendibleHashFile<long, long, Greater, Index>\<close> with the record as its own key:
  eight bytes per record, 126 records per bucket, a bucket of \<open>8 + 126 * 8 + 8 = 1024\<close>
  bytes; \<open>std::hash<long>\<close> as the conversion to \<open>std::size_t\<close>.
\<close>

definition RecordType_long :: "int RecordType" where
  "RecordType_long = \<lparr>sizeof_RecordType = 8, sizeof_Bucket = 1024, from_bytes = as_long\<rparr>"

definition index_of_longs ::
  "nat \<Rightarrow> string \<Rightarrow> world \<Rightarrow> (error + (int, int) ExtendibleHashFile) \<times> world" where
  "index_of_longs D fileName w =
     ExtendibleHashFile_new D RecordType_long fileName True (\<lambda>r. r) (\<lambda>a b. b < a) word_of_int w"

text \<open>
  The object that the constructor leaves when it has built the index from the raw data
  file: every stream closed, the initial directory.
\<close>

definition opened_index :: "nat \<Rightarrow> string \<Rightarrow> (int, int) ExtendibleHashFile" where
  "opened_index D fileName =
     \<lparr>raw_file = Closed, raw_file_name = fileName,
      index_file = Closed, index_file_name = fileName @ ''_index.ehashind'',
      hash_file = Closed, hash_file_name = fileName @ ''.ehash'',
      primary_key = True, index = (\<lambda>r. r), greater_than = (\<lambda>a b. b < a),
      hash_function = word_of_int, hash_index = ExtendibleHash_default D\<rparr>"

text \<open>
  A disk with the three files of the data set \<open>data\<close> and nothing else, and nothing
  written to \<open>std::cout\<close> yet.
\<close>

definition disk :: "string \<Rightarrow> string \<Rightarrow> string \<Rightarrow> world" where
  "disk raw_bytes hash_bytes index_bytes =
     \<lparr>files = (\<lambda>n. Absent)(''data'' := Data raw_bytes, ''data.ehash'' := Data hash_bytes,
                             ''data_index.ehashind'' := Data index_bytes),
      cout = []\<rparr>"

text \<open>
  The eight bytes of the \<open>long\<close> values 0, 1, 65 and -1.
\<close>

definition long_bytes_0 :: string where
  "long_bytes_0 = [CHR 0x00, CHR 0x00, CHR 0x00, CHR 0x00, CHR 0x00, CHR 0x00, CHR 0x00, CHR 0x00]"

definition long_bytes_1 :: string where
  "long_bytes_1 = [CHR 0x01, CHR 0x00, CHR 0x00, CHR 0x00, CHR 0x00, CHR 0x00, CHR 0x00, CHR 0x00]"

definition long_bytes_65 :: string where
  "long_bytes_65 = [CHR 0x41, CHR 0x00, CHR 0x00, CHR 0x00, CHR 0x00, CHR 0x00, CHR 0x00, CHR 0x00]"

definition long_bytes_minus_1 :: string where
  "long_bytes_minus_1 = [CHR 0xFF, CHR 0xFF, CHR 0xFF, CHR 0xFF, CHR 0xFF, CHR 0xFF, CHR 0xFF, CHR 0xFF]"

text \<open>
  The bytes of the entry of the initial directory for \<open>D = 32\<close>: local depth 0, the
  sequence of 32 zeros with its NUL and seven bytes of padding, bucket 0.
\<close>

definition default_entry_bytes :: string where
  "default_entry_bytes =
     long_bytes_0 @ replicate 32 (CHR ''0'') @ long_bytes_0 @ long_bytes_0"

text \<open>
  A block of 1024 bytes that is at once a bucket (\<open>size = 1\<close>, the record 65 in the
  first slot, \<open>next = -1\<close>) and a raw data file of 128 records.
\<close>

definition bucket_with_65 :: string where
  "bucket_with_65 =
     long_bytes_1 @ long_bytes_65 @ replicate 1000 (CHR 0x00) @ long_bytes_minus_1"

section \<open>Properties of the directory\<close>

subsection \<open>The inner loop of \<open>lookup\<close> against the matching rule\<close>

lemma lookup_eq_spec:
  assumes "length bits = D" "length sq = D + 1" "ld \<le> D" "D < 2 ^ 31"
  shows "j \<le> ld \<Longrightarrow> lookup_eq D bits sq ld j =
           Some (\<forall>k. j \<le> k \<and> k < ld \<longrightarrow> bits ! (D - 1 - k) = sq ! (D - 1 - k))"
proof (induction "ld - j" arbitrary: j)
  case 0
  then have "j = ld" by simp
  moreover have "\<not> (2::nat) ^ 31 \<le> ld" using assms by simp
  moreover have "(\<forall>k. ld \<le> k \<and> k < ld \<longrightarrow> bits ! (D - 1 - k) = sq ! (D - 1 - k)) = True"
    by auto
  ultimately show ?case by (subst lookup_eq.simps) (simp only: if_False less_irrefl)
next
  case (Suc n)
  then have jl: "j < ld" by simp
  with assms have jD: "j < D" "j < 2 ^ 31" by simp_all
  have sa: "string_at bits (D - 1 - j) = Some (bits ! (D - 1 - j))"
    using assms jD by (simp add: string_at_def)
  have aa: "array_at sq (D - 1 - j) = Some (sq ! (D - 1 - j))"
    using assms jD by (simp add: array_at_def)
  show ?case
  proof (cases "bits ! (D - 1 - j) = sq ! (D - 1 - j)")
    case False
    then have "lookup_eq D bits sq ld j = Some False"
      using jl jD sa aa by (subst lookup_eq.simps) simp
    moreover have "\<not> (\<forall>k. j \<le> k \<and> k < ld \<longrightarrow> bits ! (D - 1 - k) = sq ! (D - 1 - k))"
      using False jl by auto
    ultimately show ?thesis by simp
  next
    case True
    have "lookup_eq D bits sq ld j = lookup_eq D bits sq ld (j + 1)"
      using jl jD sa aa True by (subst lookup_eq.simps) simp
    also have "\<dots> = Some (\<forall>k. j + 1 \<le> k \<and> k < ld \<longrightarrow> bits ! (D - 1 - k) = sq ! (D - 1 - k))"
      using Suc jl by (intro Suc.hyps(1)) simp_all
    also have "(\<forall>k. j + 1 \<le> k \<and> k < ld \<longrightarrow> bits ! (D - 1 - k) = sq ! (D - 1 - k))
             = (\<forall>k. j \<le> k \<and> k < ld \<longrightarrow> bits ! (D - 1 - k) = sq ! (D - 1 - k))"
    proof (intro iffI allI impI)
      fix k
      assume h: "\<forall>k. j + 1 \<le> k \<and> k < ld \<longrightarrow> bits ! (D - 1 - k) = sq ! (D - 1 - k)"
        and k: "j \<le> k \<and> k < ld"
      show "bits ! (D - 1 - k) = sq ! (D - 1 - k)"
      proof (cases "k = j")
        case True
        with \<open>bits ! (D - 1 - j) = sq ! (D - 1 - j)\<close> show ?thesis by simp
      next
        case False
        with k have "j + 1 \<le> k \<and> k < ld" by simp
        with h show ?thesis by blast
      qed
    next
      fix k
      assume h: "\<forall>k. j \<le> k \<and> k < ld \<longrightarrow> bits ! (D - 1 - k) = sq ! (D - 1 - k)"
        and k: "j + 1 \<le> k \<and> k < ld"
      then have "j \<le> k \<and> k < ld" by simp
      with h show "bits ! (D - 1 - k) = sq ! (D - 1 - k)" by blast
    qed
    finally show ?thesis .
  qed
qed

lemma entry_matches_nth:
  assumes "length bits = D" "length sq = D + 1" "ld \<le> D"
  shows "(low_order ld (take D sq) = low_order ld bits)
         = (\<forall>k. k < ld \<longrightarrow> bits ! (D - 1 - k) = sq ! (D - 1 - k))"
proof -
  have l1: "length (take ld (rev (take D sq))) = ld" using assms by simp
  have l2: "length (take ld (rev bits)) = ld" using assms by simp
  have n1: "take ld (rev (take D sq)) ! k = sq ! (D - 1 - k)" if "k < ld" for k
    using that assms by (simp add: rev_nth)
  have n2: "take ld (rev bits) ! k = bits ! (D - 1 - k)" if "k < ld" for k
    using that assms by (simp add: rev_nth)
  show ?thesis
    unfolding low_order_def list_eq_iff_nth_eq l1 l2 using n1 n2 by auto
qed

lemma lookup_eq_matches:
  assumes "length bits = D" "D < 2 ^ 31" "entry_ok D e"
  shows "lookup_eq D bits (sequence e) (local_depth e) 0 = Some (entry_matches D bits e)"
  using assms lookup_eq_spec [of bits D "sequence e" "local_depth e" 0]
    entry_matches_nth [of bits D "sequence e" "local_depth e"]
  by (simp add: entry_ok_def entry_matches_def)

lemma lookup_first_match:
  assumes "length bits = D" "D < 2 ^ 31"
  shows "\<forall>e\<in>set es. entry_ok D e \<Longrightarrow>
         lookup D es bits =
           (case filter (entry_matches D bits) es of
              [] \<Rightarrow> Inl Could_not_find_sequence
            | e # _ \<Rightarrow> Inr (bucket_ref e))"
proof (induction es)
  case Nil
  show ?case by simp
next
  case (Cons e es)
  then have "lookup_eq D bits (sequence e) (local_depth e) 0 = Some (entry_matches D bits e)"
    using assms lookup_eq_matches by simp
  with Cons show ?case by simp
qed

lemma lookup_no_match:
  assumes "length bits = D" "D < 2 ^ 31" "\<forall>e\<in>set es. entry_ok D e"
  shows "(lookup D es bits = Inl Could_not_find_sequence) = (\<not> (\<exists>e\<in>set es. entry_matches D bits e))"
proof (cases "filter (entry_matches D bits) es")
  case Nil
  then have "\<not> (\<exists>e\<in>set es. entry_matches D bits e)"
    by (simp add: filter_empty_conv)
  with Nil show ?thesis
    using lookup_first_match [OF assms] by simp
next
  case (Cons e rest)
  then have "e \<in> set (filter (entry_matches D bits) es)" by simp
  then have "\<exists>e\<in>set es. entry_matches D bits e" by auto
  with Cons show ?thesis
    using lookup_first_match [OF assms] by simp
qed

lemma lookup_match:
  assumes "length bits = D" "D < 2 ^ 31" "\<forall>e\<in>set es. entry_ok D e"
    and "lookup D es bits \<noteq> Inl Could_not_find_sequence"
  shows "\<exists>e\<in>set es. entry_matches D bits e \<and> lookup D es bits = Inr (bucket_ref e)"
proof (cases "filter (entry_matches D bits) es")
  case Nil
  with assms(4) show ?thesis
    using lookup_first_match [OF assms(1-3)] by simp
next
  case (Cons e rest)
  then have "e \<in> set (filter (entry_matches D bits) es)" by simp
  then have "e \<in> set es" "entry_matches D bits e" by auto
  moreover have "lookup D es bits = Inr (bucket_ref e)"
    using Cons lookup_first_match [OF assms(1-3)] by simp
  ultimately show ?thesis by blast
qed

text \<open>
  C5. For a string of \<open>D\<close> characters and a directory whose entries have a local depth
  of at most \<open>D\<close> and a sequence buffer of \<open>D + 1\<close> characters, \<open>lookup\<close> throws
  "Could not find given hash sequence" exactly when no entry matches, the prefix of an
  entry being compared with the low-order \<open>local_depth\<close> characters of the string from
  the least significant position outward; otherwise it returns the \<open>bucket_ref\<close> of an
  entry that matches, and its behaviour is never undefined.
\<close>

theorem C5_lookup_first_matching_entry:
  assumes "length bits = D" "D < 2 ^ 31" "\<forall>e\<in>set es. entry_ok D e"
  shows "(lookup D es bits = Inl Could_not_find_sequence)
           = (\<not> (\<exists>e\<in>set es. entry_matches D bits e))
       \<and> (lookup D es bits = Inl Could_not_find_sequence
           \<or> (\<exists>e\<in>set es. entry_matches D bits e \<and> lookup D es bits = Inr (bucket_ref e)))"
  using lookup_no_match [OF assms] lookup_match [OF assms] by blast

theorem C5_lookup_first_matching_entry_witness:
  "length ''11'' = 2 \<and> (2::nat) < 2 ^ 31
   \<and> entry_ok 2 \<lparr>local_depth = 1, sequence = ''00'' @ [CHR 0x00], bucket_ref = 3\<rparr>
   \<and> entry_ok 2 \<lparr>local_depth = 1, sequence = ''01'' @ [CHR 0x00], bucket_ref = 5\<rparr>
   \<and> entry_matches 2 ''11'' \<lparr>local_depth = 1, sequence = ''01'' @ [CHR 0x00], bucket_ref = 5\<rparr>
   \<and> \<not> entry_matches 2 ''11'' \<lparr>local_depth = 1, sequence = ''00'' @ [CHR 0x00], bucket_ref = 3\<rparr>
   \<and> lookup 2 [\<lparr>local_depth = 1, sequence = ''00'' @ [CHR 0x00], bucket_ref = 3\<rparr>,
                \<lparr>local_depth = 1, sequence = ''01'' @ [CHR 0x00], bucket_ref = 5\<rparr>] ''11'' = Inr 5"
  using C5_lookup_first_matching_entry [of "''11''" 2
      "[\<lparr>local_depth = 1, sequence = ''00'' @ [CHR 0x00], bucket_ref = 3\<rparr>,
        \<lparr>local_depth = 1, sequence = ''01'' @ [CHR 0x00], bucket_ref = 5\<rparr>]"]
  by (auto simp del: lookup.simps simp add: entry_ok_def entry_matches_def low_order_def)

subsection \<open>Totality is kept by the split\<close>

lemma entry_matches_iff:
  assumes "length b = D" "entry_ok D e"
  shows "entry_matches D b e = (\<forall>k. k < local_depth e \<longrightarrow> b ! (D - 1 - k) = sequence e ! (D - 1 - k))"
  using assms entry_matches_nth [of b D "sequence e" "local_depth e"]
  by (simp add: entry_matches_def entry_ok_def)

lemma partitions_default: "partitions D (ExtendibleHash_default D)"
  by (simp add: partitions_def ExtendibleHash_default_def entry_ok_def entry_matches_def
      low_order_def bitset_to_string_def)

lemma child_matches:
  assumes b: "length b = D" and ok: "entry_ok D old" and d: "local_depth old < D"
  shows "entry_matches D b \<lparr>local_depth = local_depth old + 1,
                             sequence = (sequence old)[D - 1 - local_depth old := c],
                             bucket_ref = r\<rparr>
         = (entry_matches D b old \<and> b ! (D - 1 - local_depth old) = c)"
proof -
  let ?d = "local_depth old"
  let ?child = "\<lparr>local_depth = ?d + 1, sequence = (sequence old)[D - 1 - ?d := c], bucket_ref = r\<rparr>"
  have cok: "entry_ok D ?child" using ok d by (simp add: entry_ok_def)
  have len: "length (sequence old) = D + 1" using ok by (simp add: entry_ok_def)
  have same: "(sequence old)[D - 1 - ?d := c] ! (D - 1 - k) = sequence old ! (D - 1 - k)"
    if "k < ?d" for k
    using that d by (simp add: nth_list_update)
  have new: "(sequence old)[D - 1 - ?d := c] ! (D - 1 - ?d) = c"
    using len d by simp
  have "entry_matches D b ?child
        = (\<forall>k. k < ?d + 1 \<longrightarrow> b ! (D - 1 - k) = (sequence old)[D - 1 - ?d := c] ! (D - 1 - k))"
    using entry_matches_iff [OF b cok] by simp
  also have "\<dots> = ((\<forall>k. k < ?d \<longrightarrow> b ! (D - 1 - k) = sequence old ! (D - 1 - k))
                    \<and> b ! (D - 1 - ?d) = c)"
  proof (intro iffI conjI allI impI)
    fix k
    assume h: "\<forall>k. k < ?d + 1 \<longrightarrow> b ! (D - 1 - k) = (sequence old)[D - 1 - ?d := c] ! (D - 1 - k)"
      and k: "k < ?d"
    then have "b ! (D - 1 - k) = (sequence old)[D - 1 - ?d := c] ! (D - 1 - k)" by simp
    with same [OF k] show "b ! (D - 1 - k) = sequence old ! (D - 1 - k)" by simp
  next
    assume h: "\<forall>k. k < ?d + 1 \<longrightarrow> b ! (D - 1 - k) = (sequence old)[D - 1 - ?d := c] ! (D - 1 - k)"
    then have "b ! (D - 1 - ?d) = (sequence old)[D - 1 - ?d := c] ! (D - 1 - ?d)" by simp
    with new show "b ! (D - 1 - ?d) = c" by simp
  next
    fix k
    assume h: "(\<forall>k. k < ?d \<longrightarrow> b ! (D - 1 - k) = sequence old ! (D - 1 - k)) \<and> b ! (D - 1 - ?d) = c"
      and k: "k < ?d + 1"
    show "b ! (D - 1 - k) = (sequence old)[D - 1 - ?d := c] ! (D - 1 - k)"
    proof (cases "k = ?d")
      case True
      with h new show ?thesis by simp
    next
      case False
      with k have "k < ?d" by simp
      with h same show ?thesis by simp
    qed
  qed
  also have "\<dots> = (entry_matches D b old \<and> b ! (D - 1 - ?d) = c)"
    using entry_matches_iff [OF b ok] by simp
  finally show ?thesis .
qed

lemma bit_string_nth:
  assumes "bit_string D b" "i < D"
  shows "b ! i = CHR ''0'' \<or> b ! i = CHR ''1''"
  using assms by (auto simp: bit_string_def list_all_length)

lemma filter_pair_count:
  assumes "P a = (P old \<and> c = x)" "P b = (P old \<and> c = y)" "x \<noteq> y" "c = x \<or> c = y"
  shows "length (filter P [a, b]) = length (filter P [old])"
  using assms by auto

lemma partitions_split:
  assumes p: "partitions D es" and s: "split D i ref_a ref_b es = Some es'"
  shows "partitions D es'"
proof -
  define old where "old = es ! i"
  define pos where "pos = D - 1 - local_depth old"
  define ea where "ea = \<lparr>local_depth = local_depth old + 1,
                         sequence = (sequence old)[pos := CHR ''0''], bucket_ref = ref_a\<rparr>"
  define eb where "eb = \<lparr>local_depth = local_depth old + 1,
                         sequence = (sequence old)[pos := CHR ''1''], bucket_ref = ref_b\<rparr>"
  from s have i: "i < length es" and d: "local_depth old < D"
    and es': "es' = take i es @ [ea, eb] @ drop (Suc i) es"
    by (auto simp: split_def Let_def old_def pos_def ea_def eb_def split: if_splits)
  have es: "es = take i es @ [old] @ drop (Suc i) es"
    using i by (simp add: id_take_nth_drop [symmetric] old_def)
  have old_in: "old \<in> set es" using i by (simp add: old_def)
  have ok: "entry_ok D old" using p old_in by (simp add: partitions_def)
  have oka: "entry_ok D ea" and okb: "entry_ok D eb"
    using ok d by (simp_all add: entry_ok_def ea_def eb_def)
  have all_ok: "\<forall>e\<in>set es'. entry_ok D e"
  proof
    fix e assume "e \<in> set es'"
    then have "e \<in> set (take i es) \<or> e = ea \<or> e = eb \<or> e \<in> set (drop (Suc i) es)"
      unfolding es' by auto
    moreover have "e \<in> set es" if "e \<in> set (take i es)" using that by (rule in_set_takeD)
    moreover have "e \<in> set es" if "e \<in> set (drop (Suc i) es)" using that by (rule in_set_dropD)
    ultimately show "entry_ok D e"
      using p oka okb unfolding partitions_def by blast
  qed
  have count: "length (filter (entry_matches D b) es') = 1" if bs: "bit_string D b" for b
  proof -
    have len: "length b = D" using bs by (simp add: bit_string_def)
    have "pos < D" using d by (simp add: pos_def)
    then have bit: "b ! pos = CHR ''0'' \<or> b ! pos = CHR ''1''"
      by (rule bit_string_nth [OF bs])
    have ma: "entry_matches D b ea = (entry_matches D b old \<and> b ! pos = CHR ''0'')"
      unfolding ea_def pos_def by (rule child_matches [OF len ok d])
    have mb: "entry_matches D b eb = (entry_matches D b old \<and> b ! pos = CHR ''1'')"
      unfolding eb_def pos_def by (rule child_matches [OF len ok d])
    have ne: "CHR ''0'' \<noteq> CHR ''1''" by simp
    have two: "length (filter (entry_matches D b) [ea, eb])
               = length (filter (entry_matches D b) [old])"
      using ma mb ne bit
      by (rule filter_pair_count [where P = "entry_matches D b" and a = ea and b = eb and old = old])
    have "length (filter (entry_matches D b) es')
          = length (filter (entry_matches D b) (take i es))
            + length (filter (entry_matches D b) [ea, eb])
            + length (filter (entry_matches D b) (drop (Suc i) es))"
      unfolding es' by simp
    also have "\<dots> = length (filter (entry_matches D b) (take i es))
            + length (filter (entry_matches D b) [old])
            + length (filter (entry_matches D b) (drop (Suc i) es))"
      using two by simp
    also have "\<dots> = length (filter (entry_matches D b) (take i es @ [old] @ drop (Suc i) es))"
      by simp
    also have "\<dots> = length (filter (entry_matches D b) es)"
      using es by simp
    also have "\<dots> = 1" using p bs by (simp add: partitions_def)
    finally show ?thesis .
  qed
  show ?thesis unfolding partitions_def using all_ok count by blast
qed

lemma reachable_partitions: "reachable D es \<Longrightarrow> partitions D es"
proof (induction rule: reachable.induct)
  case initial
  show ?case by (rule partitions_default)
next
  case (created es hs)
  then show ?case by (simp add: ExtendibleHash_insert_def)
next
  case (splitted es i ref_a ref_b es')
  then show ?case by (blast intro: partitions_split)
qed

text \<open>
  C6. In every directory reachable from the initial one-entry directory (local depth 0,
  bucket 0) by entry creation and by splits, every string of \<open>D\<close> bits is matched by
  exactly one entry, and \<open>lookup\<close> returns the bucket reference of that entry: it does
  not reach the throw after its loop.
\<close>

theorem C6_reachable_directory_total:
  assumes "reachable D es" "bit_string D b" "D < 2 ^ 31"
  shows "length (filter (entry_matches D b) es) = 1
       \<and> (\<exists>e\<in>set es. entry_matches D b e \<and> lookup D es b = Inr (bucket_ref e))"
proof -
  have p: "partitions D es" using assms(1) by (rule reachable_partitions)
  have len: "length b = D" using assms(2) by (simp add: bit_string_def)
  have ok: "\<forall>e\<in>set es. entry_ok D e" using p by (simp add: partitions_def)
  have one: "length (filter (entry_matches D b) es) = 1"
    using p assms(2) by (simp add: partitions_def)
  then have "filter (entry_matches D b) es \<noteq> []" by auto
  then have "\<exists>e\<in>set es. entry_matches D b e" by (simp add: filter_empty_conv)
  then have "lookup D es b \<noteq> Inl Could_not_find_sequence"
    using lookup_no_match [OF len assms(3) ok] by simp
  then have "\<exists>e\<in>set es. entry_matches D b e \<and> lookup D es b = Inr (bucket_ref e)"
    by (rule lookup_match [OF len assms(3) ok])
  with one show ?thesis by simp
qed

theorem C6_reachable_directory_total_witness:
  "reachable 2 [\<lparr>local_depth = 1, sequence = ''00'' @ [CHR 0x00], bucket_ref = 1\<rparr>,
                \<lparr>local_depth = 1, sequence = ''01'' @ [CHR 0x00], bucket_ref = 2\<rparr>]
   \<and> bit_string 2 ''01'' \<and> (2::nat) < 2 ^ 31
   \<and> length (filter (entry_matches 2 ''01'')
        [\<lparr>local_depth = 1, sequence = ''00'' @ [CHR 0x00], bucket_ref = 1\<rparr>,
         \<lparr>local_depth = 1, sequence = ''01'' @ [CHR 0x00], bucket_ref = 2\<rparr>]) = 1
   \<and> lookup 2 [\<lparr>local_depth = 1, sequence = ''00'' @ [CHR 0x00], bucket_ref = 1\<rparr>,
                \<lparr>local_depth = 1, sequence = ''01'' @ [CHR 0x00], bucket_ref = 2\<rparr>] ''01'' = Inr 2"
proof -
  let ?es = "[\<lparr>local_depth = 1, sequence = ''00'' @ [CHR 0x00], bucket_ref = 1\<rparr>,
              \<lparr>local_depth = 1, sequence = ''01'' @ [CHR 0x00], bucket_ref = 2\<rparr>]"
  have s: "split 2 0 1 2 (ExtendibleHash_default 2) = Some ?es"
    by (simp add: split_def ExtendibleHash_default_def bitset_to_string_def Let_def
        numeral_2_eq_2)
  have r: "reachable 2 ?es"
    by (rule reachable.splitted [OF reachable.initial s])
  have b: "bit_string 2 ''01''" by (simp add: bit_string_def)
  have d: "(2::nat) < 2 ^ 31" by simp
  have m: "\<not> entry_matches 2 ''01'' \<lparr>local_depth = 1, sequence = ''00'' @ [CHR 0x00], bucket_ref = 1\<rparr>"
    by (simp add: entry_matches_def low_order_def)
  show ?thesis
    using r b m C6_reachable_directory_total [OF r b d]
    by (auto simp del: lookup.simps)
qed

section \<open>Properties of the index file\<close>

subsection \<open>The constructor\<close>

lemma file_names_differ:
  "fileName @ ''.ehash'' \<noteq> fileName @ ''_index.ehashind''"
  "fileName @ ''_index.ehashind'' \<noteq> fileName @ ''.ehash''"
  "fileName \<noteq> fileName @ ''.ehash''"
  "fileName \<noteq> fileName @ ''_index.ehashind''"
  "fileName @ ''.ehash'' \<noteq> fileName"
  "fileName @ ''_index.ehashind'' \<noteq> fileName"
  by simp_all

lemma new_not_both_empty:
  assumes h: "files w (fileName @ ''.ehash'') = Data hash_bytes"
    and i: "files w (fileName @ ''_index.ehashind'') = Data index_bytes"
    and ne: "hash_bytes \<noteq> [] \<or> index_bytes \<noteq> []"
  shows "ExtendibleHashFile_new D rt fileName pk idx gt hf w = (Inl Corrupt_file_structure, w)"
  using assms
  by (auto simp: ExtendibleHashFile_new_def SAFE_FILE_CREATE_IF_NOT_EXISTS_def SAFE_FILE_OPEN_def
      peek_eof_def Let_def)

lemma lookup_default: "D < 2 ^ 31 \<Longrightarrow> lookup D (ExtendibleHash_default D) hs = Inr 0"
  by (simp add: ExtendibleHash_default_def lookup_eq.simps [of D hs _ 0 0])

lemma insert_default:
  assumes "hash_file this = Closed" "files w (hash_file_name this) = Data bytes"
    "hash_index this = ExtendibleHash_default D" "0 < D" "D < 2 ^ 31"
  shows "ExtendibleHashFile_insert D r this w = (Inr (), this, w\<lparr>cout := cout w @ [0]\<rparr>)"
  using assms
  by (simp add: ExtendibleHashFile_insert_def SAFE_FILE_OPEN_def hash_sequence_of_def
      lookup_default Let_def)

lemma search_default:
  assumes "raw_file this = Closed" "files w (raw_file_name this) = Data bytes"
    "hash_index this = ExtendibleHash_default D" "0 < D" "D < 2 ^ 31"
    "length (take BLOCK_SIZE bytes) \<le> sizeof_Bucket rt"
  shows "ExtendibleHashFile_search D rt key this w = (Inr [], this, w)"
  using assms
  by (auto simp: ExtendibleHashFile_search_def SAFE_FILE_OPEN_def hash_sequence_of_def
      lookup_default read_block_def Let_def)

lemma insert_all_default:
  assumes "hash_file this = Closed" "files w (hash_file_name this) = Data hbytes"
    "hash_index this = ExtendibleHash_default D" "0 < D" "D < 2 ^ 31"
  shows "insert_all D rt bytes this w
         = (Inr (), this, w\<lparr>cout := cout w @ replicate (length (bytes_to_records rt bytes)) 0\<rparr>)"
  using assms
proof (induction D rt bytes this w rule: insert_all.induct)
  case (1 D rt bytes this w)
  show ?case
  proof (cases "sizeof_RecordType rt = 0 \<or> length bytes < sizeof_RecordType rt")
    case True
    then show ?thesis
      by (subst insert_all.simps, subst bytes_to_records.simps) simp
  next
    case False
    let ?r = "from_bytes rt (take (sizeof_RecordType rt) bytes)"
    let ?w = "w\<lparr>cout := cout w @ [0]\<rparr>"
    have ins: "ExtendibleHashFile_insert D ?r this w = (Inr (), this, ?w)"
      using "1.prems" by (rule insert_default)
    have "insert_all D rt (drop (sizeof_RecordType rt) bytes) this ?w
          = (Inr (), this, ?w\<lparr>cout := cout ?w
               @ replicate (length (bytes_to_records rt (drop (sizeof_RecordType rt) bytes))) 0\<rparr>)"
      using False ins "1.prems" by (intro "1.IH") simp_all
    then show ?thesis
      using False ins
      by (subst insert_all.simps, subst bytes_to_records.simps) (simp add: replicate_append_same)
  qed
qed

lemma new_fresh:
  assumes h: "files w (fileName @ ''.ehash'') = Absent \<or> files w (fileName @ ''.ehash'') = Data []"
    and i: "files w (fileName @ ''_index.ehashind'') = Absent
            \<or> files w (fileName @ ''_index.ehashind'') = Data []"
    and r: "files w fileName = Data bytes"
    and D: "0 < D" "D < 2 ^ 31"
  shows "ExtendibleHashFile_new D rt fileName pk idx gt hf w =
     (Inr \<lparr>raw_file = Closed, raw_file_name = fileName,
           index_file = Closed, index_file_name = fileName @ ''_index.ehashind'',
           hash_file = Closed, hash_file_name = fileName @ ''.ehash'',
           primary_key = pk, index = idx, greater_than = gt,
           hash_function = hf, hash_index = ExtendibleHash_default D\<rparr>,
      \<lparr>files = (files w)(fileName @ ''.ehash'' := Data [], fileName @ ''_index.ehashind'' := Data []),
       cout = cout w @ replicate (length (bytes_to_records rt bytes)) 0\<rparr>)"
proof -
  define w2 :: world where
    "w2 = \<lparr>files = (files w)(fileName @ ''.ehash'' := Data [], fileName @ ''_index.ehashind'' := Data []),
           cout = cout w\<rparr>"
  define this3 :: "('a, 'b) ExtendibleHashFile" where
    "this3 = \<lparr>raw_file = Opened True, raw_file_name = fileName,
           index_file = Opened True, index_file_name = fileName @ ''_index.ehashind'',
           hash_file = Closed, hash_file_name = fileName @ ''.ehash'',
           primary_key = pk, index = idx, greater_than = gt,
           hash_function = hf, hash_index = ExtendibleHash_default D\<rparr>"
  have c1: "\<exists>w1. SAFE_FILE_CREATE_IF_NOT_EXISTS (fileName @ ''.ehash'') w = Inr w1
            \<and> files w1 = (files w)(fileName @ ''.ehash'' := Data []) \<and> cout w1 = cout w"
    using h by (auto simp: SAFE_FILE_CREATE_IF_NOT_EXISTS_def fun_upd_idem)
  then obtain w1 where w1: "SAFE_FILE_CREATE_IF_NOT_EXISTS (fileName @ ''.ehash'') w = Inr w1"
    "files w1 = (files w)(fileName @ ''.ehash'' := Data [])" "cout w1 = cout w" by blast
  have "files w1 (fileName @ ''_index.ehashind'') = Absent
        \<or> files w1 (fileName @ ''_index.ehashind'') = Data []"
    using i w1(2) by simp
  then have "\<exists>w'. SAFE_FILE_CREATE_IF_NOT_EXISTS (fileName @ ''_index.ehashind'') w1 = Inr w'
            \<and> files w' = (files w1)(fileName @ ''_index.ehashind'' := Data []) \<and> cout w' = cout w1"
    by (auto simp: SAFE_FILE_CREATE_IF_NOT_EXISTS_def fun_upd_idem)
  then have c2: "SAFE_FILE_CREATE_IF_NOT_EXISTS (fileName @ ''_index.ehashind'') w1 = Inr w2"
    using w1(2,3) by (auto simp: w2_def)
  have f2: "files w2 (fileName @ ''.ehash'') = Data []"
    "files w2 (fileName @ ''_index.ehashind'') = Data []"
    "files w2 fileName = Data bytes"
    using r by (simp_all add: w2_def)
  have all: "insert_all D rt bytes this3 w2
       = (Inr (), this3, w2\<lparr>cout := cout w2 @ replicate (length (bytes_to_records rt bytes)) 0\<rparr>)"
    using D by (intro insert_all_default [where hbytes = "[]"]) (simp_all add: this3_def f2)
  have nil: "bytes = [] \<Longrightarrow> bytes_to_records rt bytes = []"
    by (subst bytes_to_records.simps) auto
  show ?thesis
    unfolding ExtendibleHashFile_new_def
    using w1(1) c2 f2 all nil
    by (simp add: Let_def SAFE_FILE_OPEN_def peek_eof_def this3_def w2_def)
qed

subsection \<open>Calls on an open index\<close>

lemma search_keeps_hash_index:
  "ExtendibleHashFile_search D rt key this w = (r, this', w') \<Longrightarrow> hash_index this' = hash_index this"
  by (auto simp: ExtendibleHashFile_search_def Let_def split: sum.splits option.splits if_splits)

lemma insert_keeps_hash_index:
  "ExtendibleHashFile_insert D rec this w = (r, this', w') \<Longrightarrow> hash_index this' = hash_index this"
  by (auto simp: ExtendibleHashFile_insert_def Let_def split: sum.splits option.splits if_splits)

lemma insert_keeps_files:
  "ExtendibleHashFile_insert D rec this w = (r, this', w') \<Longrightarrow> files w' = files w"
  by (auto simp: ExtendibleHashFile_insert_def Let_def split: sum.splits option.splits if_splits)

lemma search_keeps_world:
  "ExtendibleHashFile_search D rt key this w = (r, this', w') \<Longrightarrow> w' = w"
  by (auto simp: ExtendibleHashFile_search_def Let_def split: sum.splits option.splits if_splits)

lemma search_never_returns_a_record:
  "ExtendibleHashFile_search D rt key this w = (Inr rs, this', w') \<Longrightarrow> rs = []"
  by (auto simp: ExtendibleHashFile_search_def Let_def split: sum.splits option.splits if_splits)

lemma lookup_never_undefined:
  assumes "length bits = D" "D < 2 ^ 31" "\<forall>e\<in>set es. entry_ok D e"
  shows "lookup D es bits \<noteq> Inl Undefined_behaviour"
  using lookup_first_match [OF assms] by (simp split: list.splits)

lemma length_bitset_to_string: "length (bitset_to_string D v) = D"
  by (simp add: bitset_to_string_def)

lemma search_defined:
  assumes "0 < D" "D < 2 ^ 31" "\<forall>e\<in>set (hash_index this). entry_ok D e"
    "BLOCK_SIZE \<le> sizeof_Bucket rt"
  shows "fst (ExtendibleHashFile_search D rt key this w) \<noteq> Inl Undefined_behaviour"
proof -
  have l: "lookup D (hash_index this) (bitset_to_string D v) \<noteq> Inl Undefined_behaviour" for v
    using assms(2,3) by (intro lookup_never_undefined) (simp_all add: length_bitset_to_string)
  have b: "length (read_block s f pos) \<le> BLOCK_SIZE" for s f pos
    by (simp add: read_block_def split: fstream.splits disk_file.splits bool.splits)
  have nb: "\<not> sizeof_Bucket rt < length (read_block s f pos)" for s f pos
    using b [of s f pos] assms(4) by simp
  show ?thesis
    using assms(1) l
    by (auto simp: ExtendibleHashFile_search_def Let_def hash_sequence_of_def nb
        SAFE_FILE_OPEN_def split: sum.splits fstream.splits disk_file.splits)
qed

lemma insert_defined:
  assumes "0 < D" "D < 2 ^ 31" "\<forall>e\<in>set (hash_index this). entry_ok D e"
  shows "fst (ExtendibleHashFile_insert D rec this w) \<noteq> Inl Undefined_behaviour"
proof -
  have l: "lookup D (hash_index this) (bitset_to_string D v) \<noteq> Inl Undefined_behaviour" for v
    using assms(2,3) by (intro lookup_never_undefined) (simp_all add: length_bitset_to_string)
  show ?thesis
    using assms(1) l
    by (auto simp: ExtendibleHashFile_insert_def Let_def hash_sequence_of_def
        SAFE_FILE_OPEN_def split: sum.splits fstream.splits disk_file.splits)
qed

lemma run_defined:
  assumes "0 < D" "D < 2 ^ 31" "BLOCK_SIZE \<le> sizeof_Bucket rt"
  shows "\<forall>e\<in>set (hash_index this). entry_ok D e \<Longrightarrow> \<exists>s. run D rt calls this w = Some s"
proof (induction calls arbitrary: this w)
  case Nil
  show ?case by simp
next
  case (Cons c calls)
  show ?case
  proof (cases c)
    case (Search key)
    obtain r this1 w1 where s: "ExtendibleHashFile_search D rt key this w = (r, this1, w1)"
      by (metis prod_cases3)
    have "r \<noteq> Inl Undefined_behaviour"
      using search_defined [OF assms(1,2) Cons.prems assms(3), of key w] s by simp
    then have "run D rt (c # calls) this w = run D rt calls this1 w1"
      using Search s by (auto split: sum.splits error.splits)
    moreover have "\<forall>e\<in>set (hash_index this1). entry_ok D e"
      using search_keeps_hash_index [OF s] Cons.prems by simp
    ultimately show ?thesis using Cons.IH by simp
  next
    case (Insert rec)
    obtain r this1 w1 where s: "ExtendibleHashFile_insert D rec this w = (r, this1, w1)"
      by (metis prod_cases3)
    have "r \<noteq> Inl Undefined_behaviour"
      using insert_defined [OF assms(1,2) Cons.prems, of rec w] s by simp
    then have "run D rt (c # calls) this w = run D rt calls this1 w1"
      using Insert s by (auto split: sum.splits error.splits)
    moreover have "\<forall>e\<in>set (hash_index this1). entry_ok D e"
      using insert_keeps_hash_index [OF s] Cons.prems by simp
    ultimately show ?thesis using Cons.IH by simp
  qed
qed

lemma delete_writes_nothing:
  assumes "index_file this = Closed" "files w (index_file_name this) \<noteq> Denied"
  shows "ExtendibleHashFile_delete this w
         = (Inr (), w\<lparr>files := (files w)(index_file_name this := Data [])\<rparr>)"
  using assms
  by (simp add: ExtendibleHashFile_delete_def SAFE_FILE_OPEN_trunc_def split: disk_file.splits)

subsection \<open>What the constructor can and cannot do\<close>

lemma insert_all_keeps_hash_index:
  "insert_all D rt bytes this w = (r, this', w') \<Longrightarrow> hash_index this' = hash_index this"
proof (induction D rt bytes this w rule: insert_all.induct)
  case (1 D rt bytes this w)
  show ?case
  proof (cases "sizeof_RecordType rt = 0 \<or> length bytes < sizeof_RecordType rt")
    case True
    with "1.prems" show ?thesis
      by (subst (asm) insert_all.simps) simp
  next
    case False
    obtain r1 this1 w1 where
      i: "ExtendibleHashFile_insert D (from_bytes rt (take (sizeof_RecordType rt) bytes)) this w
          = (r1, this1, w1)"
      by (metis prod_cases3)
    have k: "hash_index this1 = hash_index this"
      using i by (rule insert_keeps_hash_index)
    show ?thesis
    proof (cases r1)
      case (Inl e)
      with "1.prems" False i have "this' = this1"
        by (subst (asm) insert_all.simps) simp
      with k show ?thesis by simp
    next
      case (Inr u)
      with "1.prems" False i
      have "insert_all D rt (drop (sizeof_RecordType rt) bytes) this1 w1 = (r, this', w')"
        by (subst (asm) insert_all.simps) simp
      then have "hash_index this' = hash_index this1"
        using False i Inr by (intro "1.IH") auto
      with k show ?thesis by simp
    qed
  qed
qed

lemma new_never_reads_the_index_file:
  assumes "ExtendibleHashFile_new D rt fileName pk idx gt hf w = (Inr this, w')"
  shows "hash_index this = ExtendibleHash_default D"
proof -
  show ?thesis
    using assms
    unfolding ExtendibleHashFile_new_def Let_def
    by (auto split: sum.splits if_splits disk_file.splits prod.splits
        dest: insert_all_keeps_hash_index)
qed

lemma new_creates_a_missing_file:
  assumes "files w (fileName @ ''.ehash'') = Absent"
    and "files w (fileName @ ''_index.ehashind'') = Data index_bytes"
    and "index_bytes \<noteq> []"
  shows "ExtendibleHashFile_new D rt fileName pk idx gt hf w
         = (Inl Corrupt_file_structure, w\<lparr>files := (files w)(fileName @ ''.ehash'' := Data [])\<rparr>)"
  using assms
  by (auto simp: ExtendibleHashFile_new_def SAFE_FILE_CREATE_IF_NOT_EXISTS_def SAFE_FILE_OPEN_def
      peek_eof_def Let_def)

subsection \<open>The instance over \<open>long\<close>\<close>

lemma disk_files:
  "files (disk r h i) ''data'' = Data r"
  "files (disk r h i) ''data.ehash'' = Data h"
  "files (disk r h i) ''data_index.ehashind'' = Data i"
  "cout (disk r h i) = []"
  by (simp_all add: disk_def)

lemma index_of_longs_fresh:
  assumes "0 < D" "D < 2 ^ 31"
  shows "index_of_longs D ''data'' (disk r [] [])
         = (Inr (opened_index D ''data''),
            (disk r [] [])\<lparr>cout := replicate (length (bytes_to_records RecordType_long r)) 0\<rparr>)"
proof -
  have w: "\<lparr>files = (files (disk r [] []))(''data'' @ ''.ehash'' := Data [],
                                            ''data'' @ ''_index.ehashind'' := Data []),
           cout = cout (disk r [] []) @ replicate n 0\<rparr>
           = (disk r [] [])\<lparr>cout := replicate n 0\<rparr>" for n
    by (auto simp: disk_def fun_eq_iff)
  have "index_of_longs D ''data'' (disk r [] [])
     = (Inr (opened_index D ''data''),
      \<lparr>files = (files (disk r [] []))(''data'' @ ''.ehash'' := Data [],
                                       ''data'' @ ''_index.ehashind'' := Data []),
       cout = cout (disk r [] []) @ replicate (length (bytes_to_records RecordType_long r)) 0\<rparr>)"
    unfolding index_of_longs_def opened_index_def
    using assms by (intro new_fresh) (simp_all add: disk_def)
  then show ?thesis by (simp only: w)
qed

lemma bitset_to_string_0: "bitset_to_string D 0 = replicate D (CHR ''0'')"
  by (simp add: bitset_to_string_def map_replicate_const)

lemma opened_index_fields:
  "raw_file (opened_index D n) = Closed"
  "hash_file (opened_index D n) = Closed"
  "index_file (opened_index D n) = Closed"
  "raw_file_name (opened_index D n) = n"
  "hash_file_name (opened_index D n) = n @ ''.ehash''"
  "index_file_name (opened_index D n) = n @ ''_index.ehashind''"
  "hash_index (opened_index D n) = ExtendibleHash_default D"
  by (simp_all add: opened_index_def)

lemma insert_opened:
  assumes "files w ''data.ehash'' = Data b"
  shows "ExtendibleHashFile_insert 32 r (opened_index 32 ''data'') w
         = (Inr (), opened_index 32 ''data'', w\<lparr>cout := cout w @ [0]\<rparr>)"
  using assms by (intro insert_default [where bytes = b]) (simp_all add: opened_index_fields)

lemma search_opened:
  assumes "files w ''data'' = Data b"
  shows "ExtendibleHashFile_search 32 RecordType_long key (opened_index 32 ''data'') w
         = (Inr [], opened_index 32 ''data'', w)"
  using assms
  by (intro search_default [where bytes = b])
     (simp_all add: opened_index_fields RecordType_long_def BLOCK_SIZE_def)

lemma as_long_examples:
  "as_long (long_bytes_0 @ rest) = 0"
  "as_long (long_bytes_1 @ rest) = 1"
  "as_long (long_bytes_65 @ rest) = 65"
  "as_long (long_bytes_minus_1 @ rest) = - 1"
  by (simp_all add: as_long_def as_size_t_def long_bytes_0_def long_bytes_1_def
      long_bytes_65_def long_bytes_minus_1_def)

lemma length_long_bytes:
  "length long_bytes_0 = 8" "length long_bytes_1 = 8" "length long_bytes_65 = 8"
  "length long_bytes_minus_1 = 8"
  by (simp_all add: long_bytes_0_def long_bytes_1_def long_bytes_65_def long_bytes_minus_1_def)

lemma length_default_entry_bytes: "length default_entry_bytes = 56"
  by (simp add: default_entry_bytes_def length_long_bytes)

lemma from_file_default_entry:
  "ExtendibleHash_from_file 32 default_entry_bytes = ExtendibleHash_default 32"
proof -
  have sz: "sizeof_ExtendibleHashEntry 32 = 56"
    by (simp add: sizeof_ExtendibleHashEntry_def)
  have rest: "unpack_entries 32 [] = []"
    by (subst unpack_entries.simps) (simp add: sz)
  have d: "as_size_t (long_bytes_0 @ r) = 0" for r
    by (simp add: as_size_t_def long_bytes_0_def)
  have e: "unpack_entry 32 default_entry_bytes
           = \<lparr>local_depth = 0, sequence = replicate 32 (CHR ''0'') @ [CHR 0x00], bucket_ref = 0\<rparr>"
    using as_long_examples(1) [of "[]"]
    by (simp add: unpack_entry_def sz default_entry_bytes_def length_long_bytes d)
       (simp add: long_bytes_0_def as_size_t_def)
  show ?thesis
    unfolding ExtendibleHash_from_file_def
    by (subst unpack_entries.simps)
       (simp add: sz length_default_entry_bytes rest e ExtendibleHash_default_def bitset_to_string_0)
qed

section \<open>The claims about the index file\<close>

text \<open>
  C1. On a new index over an empty data file, \<open>insert(65)\<close> returns without an
  exception: it prints the bucket reference 0 and writes nothing, the bucket file is as
  empty as before; the \<open>search(65)\<close> that follows returns the empty vector. The specification
  asks that the record be stored in a bucket and be found by the search. (That no bucket
  is changed when \<open>insert\<close> throws holds as well, since \<open>insert\<close> changes no file at
  all: lemma \<open>insert_keeps_files\<close>.)
\<close>

theorem C1_insert_stores_nothing:
  "index_of_longs 32 ''data'' (disk [] [] []) = (Inr (opened_index 32 ''data''), disk [] [] [])
   \<and> ExtendibleHashFile_insert 32 65 (opened_index 32 ''data'') (disk [] [] [])
       = (Inr (), opened_index 32 ''data'', (disk [] [] [])\<lparr>cout := [0]\<rparr>)
   \<and> files ((disk [] [] [])\<lparr>cout := [0]\<rparr>) ''data.ehash'' = Data []
   \<and> ExtendibleHashFile_search 32 RecordType_long 65 (opened_index 32 ''data'')
         ((disk [] [] [])\<lparr>cout := [0]\<rparr>)
       = (Inr [], opened_index 32 ''data'', (disk [] [] [])\<lparr>cout := [0]\<rparr>)"
proof -
  have e: "bytes_to_records RecordType_long [] = []"
    by (subst bytes_to_records.simps) (simp add: RecordType_long_def)
  have "index_of_longs 32 ''data'' (disk [] [] []) = (Inr (opened_index 32 ''data''), disk [] [] [])"
    using index_of_longs_fresh [of 32 "[]"] by (simp add: e disk_def)
  moreover have "ExtendibleHashFile_insert 32 65 (opened_index 32 ''data'') (disk [] [] [])
       = (Inr (), opened_index 32 ''data'', (disk [] [] [])\<lparr>cout := [0]\<rparr>)"
    using insert_opened [of "disk [] [] []" "[]" 65] by (simp add: disk_files)
  moreover have "files ((disk [] [] [])\<lparr>cout := [0]\<rparr>) ''data.ehash'' = Data []"
    by (simp add: disk_files)
  moreover have "ExtendibleHashFile_search 32 RecordType_long 65 (opened_index 32 ''data'')
         ((disk [] [] [])\<lparr>cout := [0]\<rparr>)
       = (Inr [], opened_index 32 ''data'', (disk [] [] [])\<lparr>cout := [0]\<rparr>)"
    by (rule search_opened [where b = "[]"]) (simp add: disk_files)
  ultimately show ?thesis by blast
qed

text \<open>
  C2. The raw data file holds the 128 records \<open>1, 65, 0, ..., 0, -1\<close>. The constructor
  builds a primary-key index from it, passing each record to \<open>insert\<close>. For the key 65
  the directory gives bucket 0; the block that \<open>search(65)\<close> reads there is a bucket of
  size 1 whose first record is 65, with no overflow bucket; \<open>search\<close> returns the empty
  vector. The specification asks for the single-element result with that record. (For every
  state, a \<open>search\<close> that returns, returns the empty vector: lemma
  \<open>search_never_returns_a_record\<close>.)
\<close>

theorem C2_search_returns_no_match:
  "fst (index_of_longs 32 ''data'' (disk bucket_with_65 [] [])) = Inr (opened_index 32 ''data'')
   \<and> primary_key (opened_index 32 ''data'')
   \<and> lookup 32 (hash_index (opened_index 32 ''data'')) (bitset_to_string 32 (65 mod 32)) = Inr 0
   \<and> read_block (Opened True) (Data bucket_with_65) 0 = bucket_with_65
   \<and> bucket_size (read_into_Bucket RecordType_long bucket_with_65) = 1
   \<and> take 1 (bucket_records (read_into_Bucket RecordType_long bucket_with_65)) = [65]
   \<and> bucket_next (read_into_Bucket RecordType_long bucket_with_65) = - 1
   \<and> fst (ExtendibleHashFile_search 32 RecordType_long 65 (opened_index 32 ''data'')
            (snd (index_of_longs 32 ''data'' (disk bucket_with_65 [] [])))) = Inr []"
proof -
  have n: "index_of_longs 32 ''data'' (disk bucket_with_65 [] [])
         = (Inr (opened_index 32 ''data''),
            (disk bucket_with_65 [] [])\<lparr>cout := replicate (length (bytes_to_records RecordType_long bucket_with_65)) 0\<rparr>)"
    by (rule index_of_longs_fresh) simp_all
  have len: "length bucket_with_65 = 1024"
    by (simp add: bucket_with_65_def length_long_bytes)
  have c1: "fst (index_of_longs 32 ''data'' (disk bucket_with_65 [] [])) = Inr (opened_index 32 ''data'')"
    by (simp add: n)
  have c2: "primary_key (opened_index 32 ''data'')" by (simp add: opened_index_def)
  have c3: "lookup 32 (hash_index (opened_index 32 ''data'')) (bitset_to_string 32 (65 mod 32)) = Inr 0"
    by (simp add: opened_index_fields lookup_default)
  have c4: "read_block (Opened True) (Data bucket_with_65) 0 = bucket_with_65"
    by (simp add: read_block_def BLOCK_SIZE_def len)
  have full: "bucket_with_65 @ drop (length bucket_with_65) (Bucket_init_bytes RecordType_long)
              = bucket_with_65"
    by (simp add: len Bucket_init_bytes_def RecordType_long_def)
  have c5: "bucket_size (read_into_Bucket RecordType_long bucket_with_65) = 1"
    unfolding read_into_Bucket_def full
    by (simp add: Bucket_of_bytes_def bucket_with_65_def as_long_examples(2))
  have recs: "take (MAX_RECORDS_PER_BUCKET RecordType_long * sizeof_RecordType RecordType_long)
                (drop 8 bucket_with_65) = long_bytes_65 @ replicate 1000 (CHR 0x00)"
    by (simp add: bucket_with_65_def length_long_bytes MAX_RECORDS_PER_BUCKET_def
        RecordType_long_def BLOCK_SIZE_def)
  have first: "bytes_to_records RecordType_long (long_bytes_65 @ replicate 1000 (CHR 0x00))
               = 65 # bytes_to_records RecordType_long (replicate 1000 (CHR 0x00))"
    using as_long_examples(3) [of "[]"]
    by (subst bytes_to_records.simps) (simp add: RecordType_long_def length_long_bytes)
  have c6: "take 1 (bucket_records (read_into_Bucket RecordType_long bucket_with_65)) = [65]"
    unfolding read_into_Bucket_def full
    by (simp add: Bucket_of_bytes_def recs first)
  have c7: "bucket_next (read_into_Bucket RecordType_long bucket_with_65) = - 1"
    unfolding read_into_Bucket_def full
    using as_long_examples(4) [of "[]"]
    by (simp add: Bucket_of_bytes_def bucket_with_65_def RecordType_long_def length_long_bytes)
  have c8: "fst (ExtendibleHashFile_search 32 RecordType_long 65 (opened_index 32 ''data'')
            (snd (index_of_longs 32 ''data'' (disk bucket_with_65 [] [])))) = Inr []"
    by (simp add: n search_opened [where b = bucket_with_65] disk_files)
  from c1 c2 c3 c4 c5 c6 c7 c8 show ?thesis by blast
qed

text \<open>
  C3. The index file holds the 56 bytes of one directory entry, which the constructor
  from the index file reads back as the initial directory, and the bucket file holds one
  block of 1024 bytes. The constructor throws "Corrupt ExtendibleHashFile file
  structure"; the specification asks that it succeed and load the directory. (The same
  holds whenever one of the two files is not empty, lemma \<open>new_not_both_empty\<close>, and a
  constructor that succeeds has the initial directory, whatever the index file holds:
  lemma \<open>new_never_reads_the_index_file\<close>.)
\<close>

theorem C3_open_with_both_files_filled_throws:
  "ExtendibleHash_from_file 32 default_entry_bytes = ExtendibleHash_default 32
   \<and> index_of_longs 32 ''data'' (disk [] (replicate 1024 (CHR 0x00)) default_entry_bytes)
       = (Inl Corrupt_file_structure, disk [] (replicate 1024 (CHR 0x00)) default_entry_bytes)"
proof -
  have "index_of_longs 32 ''data'' (disk [] (replicate 1024 (CHR 0x00)) default_entry_bytes)
       = (Inl Corrupt_file_structure, disk [] (replicate 1024 (CHR 0x00)) default_entry_bytes)"
    unfolding index_of_longs_def
    by (rule new_not_both_empty [where hash_bytes = "replicate 1024 (CHR 0x00)"
          and index_bytes = default_entry_bytes])
       (simp_all add: disk_files)
  with from_file_default_entry show ?thesis by simp
qed

text \<open>
  C4. For \<open>global_depth = 32\<close> and the hash value 32, the sequence that \<open>insert\<close> and
  \<open>search\<close> pass to \<open>lookup\<close> is the string of 32 zeros, the bits of \<open>32 % 32 = 0\<close>;
  the low-order 32 bits of the hash value are \<open>0...0100000\<close>. The specification asks for the
  latter.
\<close>

theorem C4_hash_sequence_is_hash_modulo_depth:
  "hash_sequence_of 32 32 = Some (replicate 32 (CHR ''0''))
   \<and> bitset_to_string 32 32 = replicate 26 (CHR ''0'') @ ''100000''"
proof -
  have "hash_sequence_of 32 32 = Some (replicate 32 (CHR ''0''))"
    by (simp add: hash_sequence_of_def bitset_to_string_0)
  moreover have "bitset_to_string 32 32 = replicate 26 (CHR ''0'') @ ''100000''"
    unfolding bitset_to_string_def by code_simp
  ultimately show ?thesis by simp
qed

text \<open>
  C7. When exactly one of the bucket file and the index file has content and the other is
  empty or does not exist, the constructor throws "Corrupt ExtendibleHashFile file
  structure" and no object is constructed; every file that existed is as it was, nothing
  is written to \<open>std::cout\<close>, and a file of the two that did not exist has been created
  empty.
\<close>

theorem C7_corrupt_open_creates_only_missing_files:
  assumes "(has_content (files w (fileName @ ''.ehash''))
              \<and> empty_or_missing (files w (fileName @ ''_index.ehashind'')))
         \<or> (empty_or_missing (files w (fileName @ ''.ehash''))
              \<and> has_content (files w (fileName @ ''_index.ehashind'')))"
  shows "\<exists>w'. ExtendibleHashFile_new D rt fileName pk idx gt hf w = (Inl Corrupt_file_structure, w')
           \<and> cout w' = cout w
           \<and> (\<forall>n. files w' n =
                 (if files w n = Absent \<and> (n = fileName @ ''.ehash'' \<or> n = fileName @ ''_index.ehashind'')
                  then Data [] else files w n))"
  using assms
  by (auto simp: ExtendibleHashFile_new_def SAFE_FILE_CREATE_IF_NOT_EXISTS_def SAFE_FILE_OPEN_def
      peek_eof_def Let_def has_content_def empty_or_missing_def
      split: disk_file.splits)

theorem C7_corrupt_open_creates_only_missing_files_witness:
  "((has_content (files \<lparr>files = (\<lambda>n. Absent)(''data.ehash'' := Data ''x''), cout = []\<rparr>
                    (''data'' @ ''.ehash''))
       \<and> empty_or_missing (files \<lparr>files = (\<lambda>n. Absent)(''data.ehash'' := Data ''x''), cout = []\<rparr>
                    (''data'' @ ''_index.ehashind'')))
     \<or> (empty_or_missing (files \<lparr>files = (\<lambda>n. Absent)(''data.ehash'' := Data ''x''), cout = []\<rparr>
                    (''data'' @ ''.ehash''))
       \<and> has_content (files \<lparr>files = (\<lambda>n. Absent)(''data.ehash'' := Data ''x''), cout = []\<rparr>
                    (''data'' @ ''_index.ehashind''))))
   \<and> fst (index_of_longs 32 ''data''
            \<lparr>files = (\<lambda>n. Absent)(''data.ehash'' := Data ''x''), cout = []\<rparr>)
       = Inl Corrupt_file_structure
   \<and> files (snd (index_of_longs 32 ''data''
            \<lparr>files = (\<lambda>n. Absent)(''data.ehash'' := Data ''x''), cout = []\<rparr>)) ''data.ehash''
       = Data ''x''
   \<and> files (snd (index_of_longs 32 ''data''
            \<lparr>files = (\<lambda>n. Absent)(''data.ehash'' := Data ''x''), cout = []\<rparr>)) ''data_index.ehashind''
       = Data []
   \<and> files (snd (index_of_longs 32 ''data''
            \<lparr>files = (\<lambda>n. Absent)(''data.ehash'' := Data ''x''), cout = []\<rparr>)) ''data''
       = Absent"
  using C7_corrupt_open_creates_only_missing_files [of
      "\<lparr>files = (\<lambda>n. Absent)(''data.ehash'' := Data ''x''), cout = []\<rparr>" "''data''" 32
      RecordType_long True "\<lambda>r. r" "\<lambda>a b. b < a" word_of_int]
  by (auto simp: index_of_longs_def has_content_def empty_or_missing_def)

text \<open>
  The specification asks that neither file be created. With an index file that has
  content and no bucket file, the constructor throws as above, and the bucket file exists
  afterwards: \<open>SAFE_FILE_CREATE_IF_NOT_EXISTS\<close> has run before the files are compared.
\<close>

theorem C7_missing_bucket_file_is_created:
  "has_content (files \<lparr>files = (\<lambda>n. Absent)(''data_index.ehashind'' := Data ''x''), cout = []\<rparr>
                  ''data_index.ehashind'')
   \<and> files \<lparr>files = (\<lambda>n. Absent)(''data_index.ehashind'' := Data ''x''), cout = []\<rparr>
         ''data.ehash'' = Absent
   \<and> index_of_longs 32 ''data''
        \<lparr>files = (\<lambda>n. Absent)(''data_index.ehashind'' := Data ''x''), cout = []\<rparr>
       = (Inl Corrupt_file_structure,
          \<lparr>files = (\<lambda>n. Absent)(''data_index.ehashind'' := Data ''x'', ''data.ehash'' := Data []),
           cout = []\<rparr>)
   \<and> files \<lparr>files = (\<lambda>n. Absent)(''data_index.ehashind'' := Data ''x'', ''data.ehash'' := Data []),
           cout = []\<rparr> ''data.ehash'' = Data []"
proof -
  let ?w = "\<lparr>files = (\<lambda>n. Absent)(''data_index.ehashind'' := Data ''x''), cout = []\<rparr>"
  have "index_of_longs 32 ''data'' ?w
        = (Inl Corrupt_file_structure, ?w\<lparr>files := (files ?w)(''data'' @ ''.ehash'' := Data [])\<rparr>)"
    unfolding index_of_longs_def
    by (rule new_creates_a_missing_file [where index_bytes = "''x''"]) simp_all
  then show ?thesis by (simp add: has_content_def)
qed

text \<open>
  C8. The destructor of an index with the initial directory opens the index file with
  \<open>trunc\<close> and writes nothing: the file is empty afterwards. The constructor from the
  index file reads no entry from it, and \<open>lookup\<close> of the string of 32 zeros in that
  directory throws, while in the directory before the teardown it returns bucket 0. The
  claim asks for the same bucket reference. (The file is left empty whatever the
  directory holds: lemma \<open>delete_writes_nothing\<close>.)
\<close>

theorem C8_teardown_writes_no_entry:
  "ExtendibleHashFile_delete (opened_index 32 ''data'') (disk [] [] [])
     = (Inr (), disk [] [] [])
   \<and> ExtendibleHash_from_file 32 [] = []
   \<and> lookup 32 (hash_index (opened_index 32 ''data'')) (replicate 32 (CHR ''0'')) = Inr 0
   \<and> lookup 32 (ExtendibleHash_from_file 32 []) (replicate 32 (CHR ''0''))
       = Inl Could_not_find_sequence"
proof -
  have w: "(disk [] [] [])\<lparr>files := (files (disk [] [] []))(''data_index.ehashind'' := Data [])\<rparr>
           = disk [] [] []"
    by (simp add: disk_def)
  have "ExtendibleHashFile_delete (opened_index 32 ''data'') (disk [] [] [])
        = (Inr (), disk [] [] [])"
    using delete_writes_nothing [of "opened_index 32 ''data''" "disk [] [] []"]
    by (simp add: opened_index_fields disk_files w)
  moreover have e: "ExtendibleHash_from_file 32 [] = []"
    unfolding ExtendibleHash_from_file_def
    by (subst unpack_entries.simps) (simp add: sizeof_ExtendibleHashEntry_def)
  moreover have "lookup 32 (hash_index (opened_index 32 ''data'')) (replicate 32 (CHR ''0'')) = Inr 0"
    by (simp add: opened_index_fields lookup_default)
  moreover have "lookup 32 (ExtendibleHash_from_file 32 []) (replicate 32 (CHR ''0''))
       = Inl Could_not_find_sequence"
    by (simp add: e)
  ultimately show ?thesis by blast
qed

text \<open>
  C9. When the data file is empty and the bucket file and the index file are missing or
  empty, the constructor succeeds, and \<open>search\<close> of any key on the index it has built
  returns the empty vector without an exception, leaving the object and the world as they
  were (for a \<open>global_depth\<close> between 1 and \<open>2^31 - 1\<close>).
\<close>

theorem C9_search_on_fresh_index_is_empty:
  assumes "files w (fileName @ ''.ehash'') = Absent \<or> files w (fileName @ ''.ehash'') = Data []"
    and "files w (fileName @ ''_index.ehashind'') = Absent
         \<or> files w (fileName @ ''_index.ehashind'') = Data []"
    and "files w fileName = Data []"
    and "0 < D" "D < 2 ^ 31"
  shows "\<exists>this w'. ExtendibleHashFile_new D rt fileName pk idx gt hf w = (Inr this, w')
           \<and> ExtendibleHashFile_search D rt key this w' = (Inr [], this, w')"
proof -
  let ?obj = "\<lparr>raw_file = Closed, raw_file_name = fileName,
           index_file = Closed, index_file_name = fileName @ ''_index.ehashind'',
           hash_file = Closed, hash_file_name = fileName @ ''.ehash'',
           primary_key = pk, index = idx, greater_than = gt,
           hash_function = hf, hash_index = ExtendibleHash_default D\<rparr>"
  let ?w = "\<lparr>files = (files w)(fileName @ ''.ehash'' := Data [], fileName @ ''_index.ehashind'' := Data []),
       cout = cout w @ replicate (length (bytes_to_records rt [])) 0\<rparr>"
  have n: "ExtendibleHashFile_new D rt fileName pk idx gt hf w = (Inr ?obj, ?w)"
    using assms by (rule new_fresh)
  have s: "ExtendibleHashFile_search D rt key ?obj ?w = (Inr [], ?obj, ?w)"
    using assms(3-5) by (intro search_default [where bytes = "[]"]) simp_all
  from n s show ?thesis by blast
qed

theorem C9_search_on_fresh_index_is_empty_witness:
  "(files (disk [] [] []) (''data'' @ ''.ehash'') = Absent
      \<or> files (disk [] [] []) (''data'' @ ''.ehash'') = Data [])
   \<and> (files (disk [] [] []) (''data'' @ ''_index.ehashind'') = Absent
      \<or> files (disk [] [] []) (''data'' @ ''_index.ehashind'') = Data [])
   \<and> files (disk [] [] []) ''data'' = Data []
   \<and> (0::nat) < 32 \<and> (32::nat) < 2 ^ 31
   \<and> (\<exists>this w'. ExtendibleHashFile_new 32 RecordType_long ''data'' True (\<lambda>r. r) (\<lambda>a b. b < a)
                    word_of_int (disk [] [] []) = (Inr this, w')
         \<and> ExtendibleHashFile_search 32 RecordType_long (65::int) this w' = (Inr [], this, w'))"
  using C9_search_on_fresh_index_is_empty [of "disk [] [] []" "''data''" 32 RecordType_long
      True "\<lambda>r. r" "\<lambda>a b. b < a" word_of_int 65]
  by (simp add: disk_files)

text \<open>
  C10. A sequence of \<open>search\<close> and \<open>insert\<close> calls on an open index, whatever
  exceptions the calls throw, leaves \<open>hash_index\<close> as it was: the same entries in the
  same order. (The destructor takes the object and gives back the world only; the
  directory does not occur in what it writes.)
\<close>

theorem C10_calls_keep_directory:
  "run D rt calls this w = Some (this', w') \<Longrightarrow> hash_index this' = hash_index this"
proof (induction calls arbitrary: this w)
  case Nil
  then show ?case by simp
next
  case (Cons c calls)
  show ?case
  proof (cases c)
    case (Search key)
    obtain r this1 w1 where s: "ExtendibleHashFile_search D rt key this w = (r, this1, w1)"
      by (metis prod_cases3)
    with Cons.prems Search have "run D rt calls this1 w1 = Some (this', w')"
      by (auto split: sum.splits error.splits)
    then have "hash_index this' = hash_index this1" by (rule Cons.IH)
    with search_keeps_hash_index [OF s] show ?thesis by simp
  next
    case (Insert rec)
    obtain r this1 w1 where s: "ExtendibleHashFile_insert D rec this w = (r, this1, w1)"
      by (metis prod_cases3)
    with Cons.prems Insert have "run D rt calls this1 w1 = Some (this', w')"
      by (auto split: sum.splits error.splits)
    then have "hash_index this' = hash_index this1" by (rule Cons.IH)
    with insert_keeps_hash_index [OF s] show ?thesis by simp
  qed
qed

theorem C10_calls_keep_directory_witness:
  "run 32 RecordType_long [Insert 65, Search 65] (opened_index 32 ''data'') (disk [] [] [])
     = Some (opened_index 32 ''data'', (disk [] [] [])\<lparr>cout := [0]\<rparr>)
   \<and> hash_index (opened_index 32 ''data'') = hash_index (opened_index 32 ''data'')"
proof -
  have i: "ExtendibleHashFile_insert 32 65 (opened_index 32 ''data'') (disk [] [] [])
       = (Inr (), opened_index 32 ''data'', (disk [] [] [])\<lparr>cout := [0]\<rparr>)"
    using insert_opened [of "disk [] [] []" "[]" 65] by (simp add: disk_files)
  have s: "ExtendibleHashFile_search 32 RecordType_long 65 (opened_index 32 ''data'')
         ((disk [] [] [])\<lparr>cout := [0]\<rparr>)
       = (Inr [], opened_index 32 ''data'', (disk [] [] [])\<lparr>cout := [0]\<rparr>)"
    by (rule search_opened [where b = "[]"]) (simp add: disk_files)
  have r: "run 32 RecordType_long [Insert 65, Search 65] (opened_index 32 ''data'') (disk [] [] [])
     = Some (opened_index 32 ''data'', (disk [] [] [])\<lparr>cout := [0]\<rparr>)"
    by (simp add: i s)
  show ?thesis
    using r C10_calls_keep_directory [OF r] by simp
qed

end
